theory Spec2Isabelle
  imports Main "HOL-Library.AList" "HOL-Library.Sublist"
begin

section \<open>The service core of cocaine/detail/baseservice.py\<close>

text \<open>
  \<^verbatim>\<open>BaseService\<close> multiplexes sessions over one tornado stream. The embedding keeps the
  attributes of the class as fields of a record, runs every method as a function from
  the state before to the state after (with the exception raised, if any, as \<open>Inl\<close>),
  and takes what the class imports from modules outside this file as parameters:
  the msgpack encoder, the \<^verbatim>\<open>Rx\<close> class of \<^verbatim>\<open>channel.py\<close>, the outcome of every TCP
  connection attempt, and the frames the msgpack unpacker yields for a chunk of bytes.
  Calls to the logger change nothing and raise nothing, and are left out.
\<close>

subsection \<open>Python values and exceptions\<close>

text \<open>
  What msgpack can decode (floats apart), and what a caller can pass as an argument.
  Arrays decode to lists and maps to dicts.
\<close>

datatype pyval =
    PNone
  | PBool bool
  | PInt int
  | PStr string
  | PList "pyval list"
  | PMap "(pyval \<times> pyval) list"

datatype exn =
    AttributeError string
  | TypeError string
  | ValueError string
  | PyException string
  | DisconnectionError string

subsection \<open>Collaborators imported by the module\<close>

text \<open>
  \<^verbatim>\<open>msgpack_packb\<close> (from \<^verbatim>\<open>util\<close>) and the receive side \<^verbatim>\<open>Rx\<close> (from \<^verbatim>\<open>channel\<close>):
  its constructor \<^verbatim>\<open>Rx(rx_tree, io_loop, servicename)\<close> and its methods \<^verbatim>\<open>push\<close>,
  \<^verbatim>\<open>closed\<close> and \<^verbatim>\<open>error\<close>. \<open>'r\<close> is the state of one receive side, \<open>'b\<close> the type of
  encoded bytes.
\<close>

record ('r, 'b) externals =
  msgpack_packb :: "pyval \<Rightarrow> 'b"
  rx_new :: "pyval \<Rightarrow> string \<Rightarrow> 'r"
  rx_push :: "'r \<Rightarrow> pyval \<Rightarrow> pyval \<Rightarrow> 'r"
  rx_closed :: "'r \<Rightarrow> bool"
  rx_error :: "'r \<Rightarrow> exn \<Rightarrow> 'r"

text \<open>
  What one \<^verbatim>\<open>TCPClient.connect\<close> future resolves to: an exception (\<open>Refused\<close>, with its
  \<^verbatim>\<open>str\<close>), a stream (\<open>Established\<close>, with its handle), or a stream on which
  \<^verbatim>\<open>set_nodelay\<close> or \<^verbatim>\<open>read_until_close\<close> then raises (\<open>Faulty\<close>).
\<close>

datatype attempt = Refused string | Established nat | Faulty nat string

subsection \<open>The state of a service\<close>

text \<open>
  \<open>sessions\<close> is the dict from session id to receive side, in insertion order; a receive
  side is an object shared with the channel handed to the caller, so the table holds its
  address in \<open>heap\<close>. \<open>counter\<close> is the next value of \<^verbatim>\<open>itertools.count(1)\<close>. \<open>api\<close> is
  the dict \<^verbatim>\<open>{method_id: (method, tx_tree, rx_tree)}\<close> as its list of items.
  \<open>written\<close> and \<open>closed_pipes\<close> record what the service did to its streams: every
  \<^verbatim>\<open>write\<close> with the stream's handle, and every \<^verbatim>\<open>close\<close>.
\<close>

record ('r, 'b) service =
  name :: string
  endpoints :: "(string \<times> int) list"
  sessions :: "(int \<times> nat) list"
  counter :: int
  api :: "(pyval \<times> pyval \<times> pyval \<times> pyval) list"
  pipe :: "nat option"
  address :: "(string \<times> int) option"
  heap :: "nat \<rightharpoonup> 'r"
  next_ref :: nat
  written :: "(nat \<times> 'b) list"
  closed_pipes :: "nat list"

text \<open>\<^verbatim>\<open>Channel(rx=rx, tx=Tx(tx_tree, self.pipe, counter))\<close>.\<close>

record channel =
  ch_rx :: nat
  ch_tx :: "pyval \<times> nat option \<times> int"

definition init :: "string \<Rightarrow> (string \<times> int) list \<Rightarrow> ('r, 'b) service" where
  "init nm eps =
     \<lparr>name = nm, endpoints = eps, sessions = [], counter = 1, api = [], pipe = None,
      address = None, heap = Map.empty, next_ref = 0, written = [], closed_pipes = []\<rparr>"

definition connected :: "('r, 'b) service \<Rightarrow> bool" where
  "connected s = (pipe s \<noteq> None)"

subsection \<open>connect\<close>

text \<open>\<^verbatim>\<open>"%d" % n\<close> and \<^verbatim>\<open>sep.join(xs)\<close>.\<close>

function str_nat :: "nat \<Rightarrow> string" where
  "str_nat n =
     (if n < 10 then [''0123456789'' ! n]
      else str_nat (n div 10) @ [''0123456789'' ! (n mod 10)])"
  by pat_completeness auto
termination
  by (relation "measure id") auto

definition str_int :: "int \<Rightarrow> string" where
  "str_int i = (if i < 0 then CHR ''-'' # str_nat (nat (- i)) else str_nat (nat i))"

fun join :: "string \<Rightarrow> string list \<Rightarrow> string" where
  "join sep [] = []"
| "join sep [x] = x"
| "join sep (x # y # xs) = x @ sep @ join sep (y # xs)"

text \<open>\<^verbatim>\<open>"%s:%d %s" % (addr[0], addr[1], msg)\<close> for one item of \<^verbatim>\<open>errors\<close>.\<close>

fun error_item :: "(string \<times> int) \<times> string \<Rightarrow> string" where
  "error_item ((h, p), msg) = h @ '':'' @ str_int p @ '' '' @ msg"

definition error_msg :: "((string \<times> int) \<times> string) list \<Rightarrow> string" where
  "error_msg errors = join '', '' (map error_item errors)"

text \<open>
  The \<^verbatim>\<open>cancellation\<close> callback, added to every future still in \<^verbatim>\<open>futures\<close> when a
  winner is found: a stream that such a future resolves to is closed.
\<close>

fun cancellation :: "(nat \<times> attempt) list \<Rightarrow> nat list" where
  "cancellation [] = []"
| "cancellation ((i, Refused e) # rest) = cancellation rest"
| "cancellation ((i, Established h) # rest) = h # cancellation rest"
| "cancellation ((i, Faulty h e) # rest) = h # cancellation rest"

text \<open>
  The \<^verbatim>\<open>while not connectors.done()\<close> loop. The second argument lists the attempts in the
  order in which \<^verbatim>\<open>WaitIterator\<close> yields them, each with its \<^verbatim>\<open>current_index\<close>.
\<close>

fun race ::
  "('r, 'b) service \<Rightarrow> (nat \<times> attempt) list \<Rightarrow> ((string \<times> int) \<times> string) list \<Rightarrow>
   (exn + unit) \<times> ('r, 'b) service" where
  "race s [] errors =
     (Inl (PyException (''unable to establish connection: '' @ error_msg errors)), s)"
| "race s ((i, Established h) # rest) errors =
     (Inr (), s\<lparr>pipe := Some h, address := Some (endpoints s ! i),
                closed_pipes := closed_pipes s @ cancellation rest\<rparr>)"
| "race s ((i, Refused e) # rest) errors =
     race s rest (AList.update (endpoints s ! i) e errors)"
| "race s ((i, Faulty h e) # rest) errors =
     race (s\<lparr>pipe := Some h\<rparr>) rest (AList.update (endpoints s ! i) e errors)"

text \<open>
  \<^verbatim>\<open>connect\<close>: the check before the lock, the check under the lock, the race.
\<close>

definition connect ::
  "('r, 'b) service \<Rightarrow> (nat \<times> attempt) list \<Rightarrow> (exn + unit) \<times> ('r, 'b) service" where
  "connect s outcomes =
     (if connected s then (Inr (), s)
      else if connected s then (Inr (), s)
      else race s outcomes [])"

subsection \<open>disconnect and on_close\<close>

definition deliver :: "(nat \<rightharpoonup> 'r) \<Rightarrow> nat \<Rightarrow> ('r \<Rightarrow> 'r) \<Rightarrow> (nat \<rightharpoonup> 'r)" where
  "deliver h r f = (case h r of None \<Rightarrow> h | Some x \<Rightarrow> h(r \<mapsto> f x))"

text \<open>
  \<^verbatim>\<open>while sessions: _, rx = sessions.popitem(); rx.error(DisconnectionError(self.name))\<close>.
  \<^verbatim>\<open>popitem\<close> takes the item inserted last.
\<close>

function drain :: "('r, 'b) externals \<Rightarrow> ('r, 'b) service \<Rightarrow> ('r, 'b) service" where
  "drain ext s =
     (if sessions s = [] then s
      else
        let rx = snd (last (sessions s));
            s1 = s\<lparr>sessions := butlast (sessions s)\<rparr>
        in drain ext
             (s1\<lparr>heap := deliver (heap s1) rx
                    (\<lambda>x. rx_error ext x (DisconnectionError (name s1)))\<rparr>))"
  by pat_completeness auto
termination
  by (relation "measure (\<lambda>(ext, s). length (sessions s))") auto

definition disconnect :: "('r, 'b) externals \<Rightarrow> ('r, 'b) service \<Rightarrow> ('r, 'b) service" where
  "disconnect ext s =
     (case pipe s of
        None \<Rightarrow> s
      | Some h \<Rightarrow> drain ext (s\<lparr>closed_pipes := closed_pipes s @ [h], pipe := None\<rparr>))"

definition on_close :: "('r, 'b) externals \<Rightarrow> ('r, 'b) service \<Rightarrow> ('r, 'b) service" where
  "on_close ext s = disconnect ext s"

subsection \<open>on_read\<close>

text \<open>
  \<^verbatim>\<open>session, message_type, payload = msg[:3]\<close>. A list or a text string of three items
  or more unpacks (a string into its first three characters); a shorter one raises
  ValueError; any other value cannot be sliced.
\<close>

fun first3 :: "pyval \<Rightarrow> exn + (pyval \<times> pyval \<times> pyval)" where
  "first3 (PList (a # b # c # _)) = Inr (a, b, c)"
| "first3 (PList _) = Inl (ValueError ''need more than 3 values to unpack'')"
| "first3 (PStr (a # b # c # _)) = Inr (PStr [a], PStr [b], PStr [c])"
| "first3 (PStr _) = Inl (ValueError ''need more than 3 values to unpack'')"
| "first3 _ = Inl (TypeError ''object is not subscriptable'')"

text \<open>
  \<^verbatim>\<open>self.sessions.get(session)\<close>. The keys of the table are the integers drawn from the
  counter. A list or a dict cannot be hashed; a bool is looked up as the integer it
  equals; None and strings equal no integer.
\<close>

fun dict_key :: "pyval \<Rightarrow> exn + int option" where
  "dict_key (PInt n) = Inr (Some n)"
| "dict_key (PBool b) = Inr (Some (if b then 1 else 0))"
| "dict_key PNone = Inr None"
| "dict_key (PStr _) = Inr None"
| "dict_key (PList _) = Inl (TypeError ''unhashable type: list'')"
| "dict_key (PMap _) = Inl (TypeError ''unhashable type: dict'')"

definition sessions_get :: "(int \<times> nat) list \<Rightarrow> pyval \<Rightarrow> exn + (int \<times> nat) option" where
  "sessions_get tbl session =
     (case dict_key session of
        Inl e \<Rightarrow> Inl e
      | Inr None \<Rightarrow> Inr None
      | Inr (Some k) \<Rightarrow>
          (case map_of tbl k of None \<Rightarrow> Inr None | Some rx \<Rightarrow> Inr (Some (k, rx))))"

text \<open>
  \<^verbatim>\<open>rx.push(message_type, payload); if rx.closed(): del self.sessions[session]\<close>.
\<close>

definition route ::
  "('r, 'b) externals \<Rightarrow> ('r, 'b) service \<Rightarrow> int \<Rightarrow> nat \<Rightarrow> pyval \<Rightarrow> pyval \<Rightarrow>
   ('r, 'b) service" where
  "route ext s k rx message_type payload =
     (let s1 = s\<lparr>heap := deliver (heap s) rx (\<lambda>x. rx_push ext x message_type payload)\<rparr>
      in if (case heap s1 rx of None \<Rightarrow> False | Some x \<Rightarrow> rx_closed ext x)
         then s1\<lparr>sessions := AList.delete k (sessions s1)\<rparr>
         else s1)"

text \<open>
  The loop \<^verbatim>\<open>for msg in self.buffer\<close>, over the frames the unpacker yields once the
  chunk is fed to it. An exception raised by \<^verbatim>\<open>msg[:3]\<close> is caught and the frame skipped;
  \<^verbatim>\<open>self.sessions.get\<close> is outside the \<^verbatim>\<open>try\<close>, and its exception leaves the loop.
\<close>

fun on_read ::
  "('r, 'b) externals \<Rightarrow> ('r, 'b) service \<Rightarrow> pyval list \<Rightarrow> (exn + unit) \<times> ('r, 'b) service" where
  "on_read ext s [] = (Inr (), s)"
| "on_read ext s (msg # msgs) =
     (case first3 msg of
        Inl err \<Rightarrow> on_read ext s msgs
      | Inr (session, message_type, payload) \<Rightarrow>
          (case sessions_get (sessions s) session of
             Inl err \<Rightarrow> (Inl err, s)
           | Inr None \<Rightarrow> on_read ext s msgs
           | Inr (Some (k, rx)) \<Rightarrow> on_read ext (route ext s k rx message_type payload) msgs))"

subsection \<open>_invoke and __getattr__\<close>

text \<open>
  \<^verbatim>\<open>for method_id, (method, tx_tree, rx_tree) in self.api.items(): if method == method_name\<close>:
  the first item whose method equals the name (a string).
\<close>

fun lookup_method ::
  "(pyval \<times> pyval \<times> pyval \<times> pyval) list \<Rightarrow> string \<Rightarrow> (pyval \<times> pyval \<times> pyval) option" where
  "lookup_method [] method_name = None"
| "lookup_method ((method_id, method, tx_tree, rx_tree) # items) method_name =
     (if method = PStr method_name then Some (method_id, tx_tree, rx_tree)
      else lookup_method items method_name)"

text \<open>
  The coroutine is suspended at \<^verbatim>\<open>yield self.pipe.write(...)\<close> with these locals:
  \<^verbatim>\<open>counter\<close>, \<^verbatim>\<open>tx_tree\<close> and \<^verbatim>\<open>rx_tree\<close>.
\<close>

datatype pending = Pending int pyval pyval

text \<open>
  \<open>invoke_send\<close> is \<^verbatim>\<open>_invoke\<close> from its entry to that \<^verbatim>\<open>yield\<close>: connect, find the
  method, draw the counter, write the frame \<^verbatim>\<open>[counter, method_id, args]\<close>. The stream
  accepts the write; keyword arguments are not sent.
\<close>

definition invoke_send ::
  "('r, 'b) externals \<Rightarrow> ('r, 'b) service \<Rightarrow> (nat \<times> attempt) list \<Rightarrow> string \<Rightarrow> pyval list \<Rightarrow>
   (exn + pending) \<times> ('r, 'b) service" where
  "invoke_send ext s outcomes method_name args =
     (case connect s outcomes of
        (Inl err, s1) \<Rightarrow> (Inl err, s1)
      | (Inr _, s1) \<Rightarrow>
          (case lookup_method (api s1) method_name of
             None \<Rightarrow> (Inl (AttributeError method_name), s1)
           | Some (method_id, tx_tree, rx_tree) \<Rightarrow>
               let c = counter s1;
                   s2 = s1\<lparr>counter := c + 1\<rparr>
               in (case pipe s2 of
                     None \<Rightarrow> (Inl (AttributeError ''write''), s2)
                   | Some h \<Rightarrow>
                       (Inr (Pending c tx_tree rx_tree),
                        s2\<lparr>written := written s2 @
                             [(h, msgpack_packb ext (PList [PInt c, method_id, PList args]))]\<rparr>))))"

text \<open>
  \<open>invoke_register\<close> is \<^verbatim>\<open>_invoke\<close> from its resumption to \<^verbatim>\<open>raise Return(channel)\<close>:
  build \<^verbatim>\<open>Rx\<close> and \<^verbatim>\<open>Tx\<close>, store \<^verbatim>\<open>self.sessions[counter] = rx\<close>, return the channel.
\<close>

fun invoke_register ::
  "('r, 'b) externals \<Rightarrow> ('r, 'b) service \<Rightarrow> pending \<Rightarrow> channel \<times> ('r, 'b) service" where
  "invoke_register ext s (Pending c tx_tree rx_tree) =
     (let rx = next_ref s;
          s1 = s\<lparr>heap := (heap s)(rx \<mapsto> rx_new ext rx_tree (name s)), next_ref := rx + 1\<rparr>;
          tx = (tx_tree, pipe s1, c);
          s2 = s1\<lparr>sessions := AList.update c rx (sessions s1)\<rparr>
      in (\<lparr>ch_rx = rx, ch_tx = tx\<rparr>, s2))"

text \<open>\<^verbatim>\<open>_invoke\<close> run from entry to return with nothing else scheduled in between.\<close>

definition invoke ::
  "('r, 'b) externals \<Rightarrow> ('r, 'b) service \<Rightarrow> (nat \<times> attempt) list \<Rightarrow> string \<Rightarrow> pyval list \<Rightarrow>
   (exn + channel) \<times> ('r, 'b) service" where
  "invoke ext s outcomes method_name args =
     (case invoke_send ext s outcomes method_name args of
        (Inl err, s1) \<Rightarrow> (Inl err, s1)
      | (Inr p, s1) \<Rightarrow> (case invoke_register ext s1 p of (ch, s2) \<Rightarrow> (Inr ch, s2)))"

text \<open>
  \<^verbatim>\<open>__getattr__(name)\<close> returns \<^verbatim>\<open>on_getattr\<close>, which calls \<^verbatim>\<open>self._invoke(name, *args)\<close>.
\<close>

definition on_getattr ::
  "('r, 'b) externals \<Rightarrow> ('r, 'b) service \<Rightarrow> (nat \<times> attempt) list \<Rightarrow> string \<Rightarrow> pyval list \<Rightarrow>
   (exn + channel) \<times> ('r, 'b) service" where
  "on_getattr ext s outcomes nm args = invoke ext s outcomes nm args"

subsection \<open>Sequences of calls\<close>

text \<open>
  The calls a service receives, each run from entry to return: the methods above, and the
  resolver's assignment to \<^verbatim>\<open>self.api\<close>. \<open>exec\<close> gives the channel a call returns, if
  any, and the state after it; \<open>run\<close> collects the channels of a sequence of calls.
\<close>

datatype call =
    Connect "(nat \<times> attempt) list"
  | Disconnect
  | OnRead "pyval list"
  | OnClose
  | Invoke "(nat \<times> attempt) list" string "pyval list"
  | SetApi "(pyval \<times> pyval \<times> pyval \<times> pyval) list"

fun exec ::
  "('r, 'b) externals \<Rightarrow> ('r, 'b) service \<Rightarrow> call \<Rightarrow> channel option \<times> ('r, 'b) service" where
  "exec ext s (Connect outcomes) = (None, snd (connect s outcomes))"
| "exec ext s Disconnect = (None, disconnect ext s)"
| "exec ext s (OnRead msgs) = (None, snd (on_read ext s msgs))"
| "exec ext s OnClose = (None, on_close ext s)"
| "exec ext s (Invoke outcomes method_name args) =
     (case invoke ext s outcomes method_name args of
        (Inl err, s1) \<Rightarrow> (None, s1)
      | (Inr ch, s1) \<Rightarrow> (Some ch, s1))"
| "exec ext s (SetApi a) = (None, s\<lparr>api := a\<rparr>)"

fun run ::
  "('r, 'b) externals \<Rightarrow> ('r, 'b) service \<Rightarrow> call list \<Rightarrow> channel list \<times> ('r, 'b) service" where
  "run ext s [] = ([], s)"
| "run ext s (c # cs) =
     (case exec ext s c of
        (None, s1) \<Rightarrow> run ext s1 cs
      | (Some ch, s1) \<Rightarrow> (case run ext s1 cs of (chs, s2) \<Rightarrow> (ch # chs, s2)))"

text \<open>
  The same calls with dispatches that may be suspended at their write while other calls
  run. A configuration is the service together with the coroutines of \<^verbatim>\<open>_invoke\<close> now
  suspended at \<^verbatim>\<open>yield self.pipe.write(...)\<close>. \<open>Start\<close> runs a dispatch up to that \<^verbatim>\<open>yield\<close>,
  \<open>Resume i\<close> runs the \<open>i\<close>-th suspended dispatch from there to its return, and \<open>Call\<close> runs
  a call from entry to return.
\<close>

datatype event =
    Call call
  | Start "(nat \<times> attempt) list" string "pyval list"
  | Resume nat

fun step ::
  "('r, 'b) externals \<Rightarrow> ('r, 'b) service \<times> pending list \<Rightarrow> event \<Rightarrow>
   ('r, 'b) service \<times> pending list" where
  "step ext (s, ps) (Call c) = (snd (exec ext s c), ps)"
| "step ext (s, ps) (Start outcomes method_name args) =
     (case invoke_send ext s outcomes method_name args of
        (Inl err, s1) \<Rightarrow> (s1, ps)
      | (Inr p, s1) \<Rightarrow> (s1, ps @ [p]))"
| "step ext (s, ps) (Resume i) =
     (if i < length ps
      then (snd (invoke_register ext s (ps ! i)), take i ps @ drop (Suc i) ps)
      else (s, ps))"

fun steps ::
  "('r, 'b) externals \<Rightarrow> ('r, 'b) service \<times> pending list \<Rightarrow> event list \<Rightarrow>
   ('r, 'b) service \<times> pending list" where
  "steps ext cfg [] = cfg"
| "steps ext cfg (ev # evs) = steps ext (step ext cfg ev) evs"

text \<open>
  No dispatch of the sequence resumes from its write while \<open>pipe\<close> is cleared.
\<close>

fun resumes_live ::
  "('r, 'b) externals \<Rightarrow> ('r, 'b) service \<times> pending list \<Rightarrow> event list \<Rightarrow> bool" where
  "resumes_live ext cfg [] = True"
| "resumes_live ext cfg (Resume i # evs) =
     ((length (snd cfg) \<le> i \<or> pipe (fst cfg) \<noteq> None) \<and>
      resumes_live ext (step ext cfg (Resume i)) evs)"
| "resumes_live ext cfg (ev # evs) = resumes_live ext (step ext cfg ev) evs"

text \<open>The session id a channel's send side is bound to.\<close>

definition session_id :: "channel \<Rightarrow> int" where
  "session_id ch = snd (snd (ch_tx ch))"

text \<open>The session table holds entries only while a stream is live.\<close>

definition table_live :: "('r, 'b) service \<Rightarrow> bool" where
  "table_live s = (sessions s = [] \<or> pipe s \<noteq> None)"

text \<open>The dict \<^verbatim>\<open>errors\<close> when the loop of \<^verbatim>\<open>connect\<close> ends without a winner.\<close>

fun record_failures ::
  "(string \<times> int) list \<Rightarrow> (nat \<times> attempt) list \<Rightarrow> ((string \<times> int) \<times> string) list \<Rightarrow>
   ((string \<times> int) \<times> string) list" where
  "record_failures eps [] errors = errors"
| "record_failures eps ((i, Established h) # rest) errors = errors"
| "record_failures eps ((i, Refused e) # rest) errors =
     record_failures eps rest (AList.update (eps ! i) e errors)"
| "record_failures eps ((i, Faulty h e) # rest) errors =
     record_failures eps rest (AList.update (eps ! i) e errors)"

definition refused :: "attempt \<Rightarrow> bool" where
  "refused a = (case a of Refused e \<Rightarrow> True | _ \<Rightarrow> False)"

subsection \<open>Collaborators for running the model\<close>

text \<open>
  A receive side that records what it is given, closed once it has seen a message of
  type 1 or an error, and an encoder that leaves the frame as it is.
\<close>

datatype rx_event = Got pyval pyval | Failed exn

fun recorder_closed :: "rx_event list \<Rightarrow> bool" where
  "recorder_closed [] = False"
| "recorder_closed (Got message_type payload # evs) =
     (message_type = PInt 1 \<or> recorder_closed evs)"
| "recorder_closed (Failed e # evs) = True"

definition recorder :: "(rx_event list, pyval) externals" where
  "recorder =
     \<lparr>msgpack_packb = (\<lambda>v. v),
      rx_new = (\<lambda>rx_tree servicename. []),
      rx_push = (\<lambda>x message_type payload. x @ [Got message_type payload]),
      rx_closed = recorder_closed,
      rx_error = (\<lambda>x e. x @ [Failed e])\<rparr>"

text \<open>
  A connected service \<^verbatim>\<open>svc\<close> on stream 7 with the API \<^verbatim>\<open>{1: ("echo", {}, {})}\<close> and no
  session yet.
\<close>

definition echo_service :: "(rx_event list, pyval) service" where
  "echo_service =
     (init ''svc'' [(''a'', 1)])
       \<lparr>api := [(PInt 1, PStr ''echo'', PMap [], PMap [])], pipe := Some 7,
        address := Some (''a'', 1)\<rparr>"

text \<open>
  The same service with two open sessions: session 1 has received nothing, session 2 one
  message of type 0.
\<close>

definition busy_service :: "(rx_event list, pyval) service" where
  "busy_service =
     echo_service
       \<lparr>sessions := [(1, 0), (2, 1)], counter := 3,
        heap := [0 \<mapsto> [], 1 \<mapsto> [Got (PInt 0) (PStr ''a'')]], next_ref := 2\<rparr>"

section \<open>Properties\<close>

declare drain.simps [simp del]
declare str_nat.simps [simp del]

subsection \<open>The drain loop\<close>

lemma deliver_apply:
  "deliver h r f r' = (if r' = r then map_option f (h r) else h r')"
  by (simp add: deliver_def split: option.split)

lemma drain_eq:
  "drain ext s =
     s\<lparr>sessions := [],
       heap := foldr (\<lambda>kr h. deliver h (snd kr) (\<lambda>x. rx_error ext x (DisconnectionError (name s))))
                (sessions s) (heap s)\<rparr>"
proof (induction ext s rule: drain.induct)
  case (1 ext s)
  show ?case
  proof (cases "sessions s = []")
    case True
    then show ?thesis by (subst drain.simps) simp
  next
    case False
    then obtain xs x where xs: "sessions s = xs @ [x]"
      by (metis append_butlast_last_id)
    note IH = 1 [OF False refl refl]
    show ?thesis
      by (subst drain.simps) (use IH in \<open>simp add: False xs Let_def\<close>)
  qed
qed

lemma foldr_deliver_apply:
  "distinct (map snd xs) \<Longrightarrow>
   foldr (\<lambda>kr h. deliver h (snd kr) f) xs h r =
     (if r \<in> snd ` set xs then map_option f (h r) else h r)"
  by (induction xs) (auto simp: deliver_apply)

subsection \<open>What connect and _invoke change\<close>

lemma race_frame:
  "sessions (snd (race s os errs)) = sessions s \<and>
   counter (snd (race s os errs)) = counter s \<and>
   api (snd (race s os errs)) = api s \<and>
   written (snd (race s os errs)) = written s \<and>
   heap (snd (race s os errs)) = heap s \<and>
   next_ref (snd (race s os errs)) = next_ref s \<and>
   name (snd (race s os errs)) = name s \<and>
   endpoints (snd (race s os errs)) = endpoints s"
  by (induction s os errs rule: race.induct) simp_all

lemma race_pipe:
  "fst (race s os errs) = Inr () \<or> pipe s \<noteq> None \<Longrightarrow> pipe (snd (race s os errs)) \<noteq> None"
  by (induction s os errs rule: race.induct) simp_all

lemma connect_frame:
  "sessions (snd (connect s os)) = sessions s \<and>
   counter (snd (connect s os)) = counter s \<and>
   api (snd (connect s os)) = api s \<and>
   written (snd (connect s os)) = written s \<and>
   heap (snd (connect s os)) = heap s \<and>
   next_ref (snd (connect s os)) = next_ref s \<and>
   name (snd (connect s os)) = name s \<and>
   endpoints (snd (connect s os)) = endpoints s"
  by (simp add: connect_def race_frame)

lemma connect_live: "pipe s \<noteq> None \<Longrightarrow> connect s os = (Inr (), s)"
  by (simp add: connect_def connected_def)

lemma connect_pipe:
  "fst (connect s os) = Inr () \<or> pipe s \<noteq> None \<Longrightarrow> pipe (snd (connect s os)) \<noteq> None"
  using race_pipe [of s os "[]"] by (auto simp: connect_def connected_def)

lemma connect_result: "fst (connect s os) = Inr () \<or> (\<exists>msg. fst (connect s os) = Inl (PyException msg))"
proof -
  have "fst (race s os errs) = Inr () \<or> (\<exists>msg. fst (race s os errs) = Inl (PyException msg))" for errs
    by (induction s os errs rule: race.induct) simp_all
  then show ?thesis by (simp add: connect_def)
qed

lemma invoke_send_unknown:
  "lookup_method (api s) m = None \<Longrightarrow>
   invoke_send ext s os m args =
     (case connect s os of (Inl err, s1) \<Rightarrow> (Inl err, s1) | (Inr u, s1) \<Rightarrow> (Inl (AttributeError m), s1))"
  using connect_frame [of s os]
  by (auto simp: invoke_send_def split: prod.splits sum.splits)

lemma invoke_unknown:
  "lookup_method (api s) m = None \<Longrightarrow>
   invoke ext s os m args =
     (case connect s os of (Inl err, s1) \<Rightarrow> (Inl err, s1) | (Inr u, s1) \<Rightarrow> (Inl (AttributeError m), s1))"
  by (simp add: invoke_def invoke_send_unknown split: prod.splits sum.splits)

lemma invoke_send_known:
  assumes "fst (connect s os) = Inr ()"
    and "lookup_method (api s) m = Some (method_id, tx_tree, rx_tree)"
  shows "\<exists>h. pipe (snd (connect s os)) = Some h \<and>
     invoke_send ext s os m args =
       (Inr (Pending (counter s) tx_tree rx_tree),
        (snd (connect s os))
          \<lparr>counter := counter s + 1,
           written := written s @ [(h, msgpack_packb ext (PList [PInt (counter s), method_id, PList args]))]\<rparr>)"
proof -
  obtain h where h: "pipe (snd (connect s os)) = Some h"
    using connect_pipe [of s os] assms(1) by auto
  obtain u s1 where c: "connect s os = (Inr u, s1)"
    using assms(1) by (cases "connect s os") auto
  show ?thesis
    using h c assms(2) connect_frame [of s os]
    by (simp add: invoke_send_def Let_def)
qed

lemma invoke_success:
  assumes "invoke ext s os m args = (Inr ch, s')"
  shows "session_id ch = counter s \<and> counter s' = counter s + 1 \<and>
         sessions s' = AList.update (counter s) (ch_rx ch) (sessions s) \<and>
         pipe s' \<noteq> None"
  using assms connect_frame [of s os]
  by (auto simp: invoke_def invoke_send_def session_id_def Let_def
           split: prod.splits sum.splits option.splits)

lemma invoke_failure:
  assumes "invoke ext s os m args = (Inl err, s')"
  shows "sessions s' = sessions s \<and> heap s' = heap s \<and> (pipe s \<noteq> None \<longrightarrow> pipe s' \<noteq> None)"
  using assms connect_frame [of s os] connect_pipe [of s os]
  by (auto simp: invoke_def invoke_send_def Let_def
           split: prod.splits sum.splits option.splits)

subsection \<open>Dispatch of an unknown method\<close>

text \<open>
  C2 (amended). For a method name that no item of the API mapping carries, \<^verbatim>\<open>_invoke\<close>
  first runs \<^verbatim>\<open>connect\<close>: a connection failure propagates unchanged, and otherwise the call
  fails with \<^verbatim>\<open>AttributeError\<close> naming the method. In both cases the state is the one
  \<^verbatim>\<open>connect\<close> left, nothing is written and the session table is unchanged. On a service
  that is already connected the call fails at once and changes no state at all.
\<close>

theorem unknown_method_fails:
  assumes "lookup_method (api s) m = None"
  shows "invoke ext s os m args =
           (case connect s os of
              (Inl err, s1) \<Rightarrow> (Inl err, s1)
            | (Inr u, s1) \<Rightarrow> (Inl (AttributeError m), s1)) \<and>
         written (snd (invoke ext s os m args)) = written s \<and>
         sessions (snd (invoke ext s os m args)) = sessions s \<and>
         (pipe s \<noteq> None \<longrightarrow> invoke ext s os m args = (Inl (AttributeError m), s))"
proof -
  have eq: "invoke ext s os m args =
           (case connect s os of
              (Inl err, s1) \<Rightarrow> (Inl err, s1)
            | (Inr u, s1) \<Rightarrow> (Inl (AttributeError m), s1))"
    by (rule invoke_unknown [OF assms])
  have snd_eq: "snd (invoke ext s os m args) = snd (connect s os)"
    by (simp add: eq split: prod.splits sum.splits)
  have w: "written (snd (invoke ext s os m args)) = written s"
    and t: "sessions (snd (invoke ext s os m args)) = sessions s"
    using connect_frame [of s os] by (simp_all add: snd_eq)
  have l: "pipe s \<noteq> None \<longrightarrow> invoke ext s os m args = (Inl (AttributeError m), s)"
    by (simp add: eq connect_live)
  from eq w t l show ?thesis by blast
qed

text \<open>
  C2, witness: the connected echo service, asked for the method \<^verbatim>\<open>nope\<close>.
\<close>

theorem unknown_method_fails_witness:
  "lookup_method (api echo_service) ''nope'' = None \<and>
   invoke recorder echo_service [] ''nope'' [PStr ''x''] = (Inl (AttributeError ''nope''), echo_service)"
proof -
  have h: "lookup_method (api echo_service) ''nope'' = None"
    by (simp add: echo_service_def init_def)
  have p: "pipe echo_service \<noteq> None"
    by (simp add: echo_service_def init_def)
  from unknown_method_fails [OF h, of recorder "[]" "[PStr ''x'']"] p h
  show ?thesis by blast
qed

text \<open>
  C2 as stated fails on a service that is not connected: the call races the endpoints
  before it looks the method up. When the attempt is refused the caller gets the
  connection error, not the unknown-method error; when it succeeds the call has opened
  stream 7 and left it live.
\<close>

theorem unknown_method_connects:
  "lookup_method (api (init ''svc'' [(''a'', 1)] :: (rx_event list, pyval) service)) ''nope'' = None \<and>
   fst (invoke recorder (init ''svc'' [(''a'', 1)]) [(0, Refused ''boom'')] ''nope'' []) =
     Inl (PyException ''unable to establish connection: a:1 boom'') \<and>
   fst (invoke recorder (init ''svc'' [(''a'', 1)]) [(0, Established 7)] ''nope'' []) =
     Inl (AttributeError ''nope'') \<and>
   pipe (init ''svc'' [(''a'', 1)] :: (rx_event list, pyval) service) = None \<and>
   pipe (snd (invoke recorder (init ''svc'' [(''a'', 1)]) [(0, Established 7)] ''nope'' [])) = Some 7"
  by (simp add: invoke_def invoke_send_def connect_def connected_def init_def error_msg_def
        str_int_def str_nat.simps)

text \<open>
  C10. A call of a method name absent from the API mapping leaves the session table and
  the counter as they were; the next successful invocation is given the id \<open>counter s\<close>
  and registered under it, which is the id a successful call in place of the failed one
  would have drawn.
\<close>

theorem unknown_method_frame:
  assumes "lookup_method (api s) m = None"
  shows "sessions (snd (invoke ext s os m args)) = sessions s \<and>
         counter (snd (invoke ext s os m args)) = counter s \<and>
         (\<forall>os' m' args' ch s'.
            invoke ext (snd (invoke ext s os m args)) os' m' args' = (Inr ch, s') \<longrightarrow>
            session_id ch = counter s \<and> map_of (sessions s') (counter s) = Some (ch_rx ch)) \<and>
         (\<forall>os' m' args' ch s'.
            invoke ext s os' m' args' = (Inr ch, s') \<longrightarrow> session_id ch = counter s)"
proof -
  have snd_eq: "snd (invoke ext s os m args) = snd (connect s os)"
    by (simp add: invoke_unknown [OF assms] split: prod.splits sum.splits)
  have c: "counter (snd (invoke ext s os m args)) = counter s"
    and t: "sessions (snd (invoke ext s os m args)) = sessions s"
    using connect_frame [of s os] by (simp_all add: snd_eq)
  show ?thesis
    using c t by (auto dest!: invoke_success simp: update_conv')
qed

text \<open>
  C10, witness: on the echo service \<^verbatim>\<open>nope\<close> fails, and the following \<^verbatim>\<open>echo\<close> is given id 1.
\<close>

theorem unknown_method_frame_witness:
  "lookup_method (api echo_service) ''nope'' = None \<and>
   sessions (snd (invoke recorder echo_service [] ''nope'' [])) = [] \<and>
   counter (snd (invoke recorder echo_service [] ''nope'' [])) = 1 \<and>
   (\<exists>ch s'. invoke recorder (snd (invoke recorder echo_service [] ''nope'' [])) []
               ''echo'' [PStr ''x''] = (Inr ch, s') \<and> session_id ch = 1)"
proof -
  have h: "lookup_method (api echo_service) ''nope'' = None"
    by (simp add: echo_service_def init_def)
  have c: "counter echo_service = 1" and t: "sessions echo_service = []"
    by (simp_all add: echo_service_def init_def)
  have failed: "snd (invoke recorder echo_service [] ''nope'' []) = echo_service"
    by (simp add: invoke_def invoke_send_def connect_def connected_def echo_service_def init_def)
  have "\<exists>ch s'. invoke recorder echo_service [] ''echo'' [PStr ''x''] = (Inr ch, s')"
    by (simp add: invoke_def invoke_send_def connect_def connected_def echo_service_def init_def
          Let_def)
  then obtain ch s' where
    nxt: "invoke recorder (snd (invoke recorder echo_service [] ''nope'' [])) []
            ''echo'' [PStr ''x''] = (Inr ch, s')"
    by (auto simp: failed)
  from unknown_method_frame [OF h, of recorder "[]" "[]"] nxt c t h
  show ?thesis by auto
qed

text \<open>
  C9 (amended). With the API mapping \<^verbatim>\<open>{1: ("echo", shapeA, shapeB)}\<close>, keyed by method id
  as \<^verbatim>\<open>_invoke\<close> reads it, \<^verbatim>\<open>echo("x")\<close> on a connected service whose next session id is 1
  writes exactly the encoded frame \<^verbatim>\<open>[1, 1, ["x"]]\<close> to the live stream, registers a fresh
  receive side of shape \<open>shapeB\<close> under id 1, and returns the channel pairing it with a
  send side of shape \<open>shapeA\<close> bound to the stream and to id 1.
\<close>

theorem echo_scenario:
  assumes "api s = [(PInt 1, PStr ''echo'', shapeA, shapeB)]"
    and "pipe s = Some h"
    and "counter s = 1"
  shows "fst (on_getattr ext s os ''echo'' [PStr ''x'']) =
           Inr \<lparr>ch_rx = next_ref s, ch_tx = (shapeA, Some h, 1)\<rparr> \<and>
         written (snd (on_getattr ext s os ''echo'' [PStr ''x''])) =
           written s @ [(h, msgpack_packb ext (PList [PInt 1, PInt 1, PList [PStr ''x'']]))] \<and>
         sessions (snd (on_getattr ext s os ''echo'' [PStr ''x''])) =
           AList.update 1 (next_ref s) (sessions s) \<and>
         map_of (sessions (snd (on_getattr ext s os ''echo'' [PStr ''x'']))) 1 =
           Some (next_ref s) \<and>
         heap (snd (on_getattr ext s os ''echo'' [PStr ''x''])) (next_ref s) =
           Some (rx_new ext shapeB (name s)) \<and>
         pipe (snd (on_getattr ext s os ''echo'' [PStr ''x''])) = Some h \<and>
         counter (snd (on_getattr ext s os ''echo'' [PStr ''x''])) = 2"
  using assms
  by (simp add: on_getattr_def invoke_def invoke_send_def connect_def connected_def Let_def
        update_conv')

text \<open>
  C9, witness: the echo service with the recording collaborators.
\<close>

theorem echo_scenario_witness:
  "api echo_service = [(PInt 1, PStr ''echo'', PMap [], PMap [])] \<and>
   pipe echo_service = Some 7 \<and> counter echo_service = 1 \<and>
   fst (on_getattr recorder echo_service [] ''echo'' [PStr ''x'']) =
     Inr \<lparr>ch_rx = 0, ch_tx = (PMap [], Some 7, 1)\<rparr> \<and>
   written (snd (on_getattr recorder echo_service [] ''echo'' [PStr ''x''])) =
     [(7, PList [PInt 1, PInt 1, PList [PStr ''x'']])] \<and>
   sessions (snd (on_getattr recorder echo_service [] ''echo'' [PStr ''x''])) = [(1, 0)]"
proof -
  have a: "api echo_service = [(PInt 1, PStr ''echo'', PMap [], PMap [])]"
    and p: "pipe echo_service = Some 7" and c: "counter echo_service = 1"
    by (simp_all add: echo_service_def init_def)
  have more: "next_ref echo_service = 0" "written echo_service = []" "sessions echo_service = []"
    by (simp_all add: echo_service_def init_def)
  from echo_scenario [OF a p c, of recorder "[]"] a p c more
  show ?thesis by (simp add: recorder_def)
qed

text \<open>
  C9 as stated fails: with the mapping \<^verbatim>\<open>{"echo": (1, shapeA, shapeB)}\<close>, keyed by name, the
  loop of \<^verbatim>\<open>_invoke\<close> compares the integer 1 with the name and finds no method.
\<close>

theorem echo_scenario_name_keyed:
  "on_getattr recorder
     (echo_service\<lparr>api := [(PStr ''echo'', PInt 1, PMap [], PMap [])]\<rparr>) [] ''echo'' [PStr ''x''] =
   (Inl (AttributeError ''echo''),
    echo_service\<lparr>api := [(PStr ''echo'', PInt 1, PMap [], PMap [])]\<rparr>)"
  by (simp add: on_getattr_def invoke_def invoke_send_def connect_def connected_def
        echo_service_def init_def)

text \<open>
  C1 (amended). In a dispatch of a known method the frame is written first, at the point
  where the coroutine is suspended: the session table is then still the one before the
  call and no channel exists. The receive side is registered under the drawn id when the
  coroutine resumes, with nothing more written, and the channel is returned after that.
  \<^verbatim>\<open>_invoke\<close> run without interruption is the two steps in this order.
\<close>

theorem write_before_register:
  assumes "fst (connect s os) = Inr ()"
    and "lookup_method (api s) m = Some (method_id, tx_tree, rx_tree)"
  shows "\<exists>h sw ch sr.
           invoke_send ext s os m args = (Inr (Pending (counter s) tx_tree rx_tree), sw) \<and>
           pipe (snd (connect s os)) = Some h \<and> pipe sw = Some h \<and>
           written sw =
             written s @ [(h, msgpack_packb ext (PList [PInt (counter s), method_id, PList args]))] \<and>
           sessions sw = sessions s \<and>
           invoke_register ext sw (Pending (counter s) tx_tree rx_tree) = (ch, sr) \<and>
           written sr = written sw \<and>
           sessions sr = AList.update (counter s) (ch_rx ch) (sessions sw) \<and>
           heap sr (ch_rx ch) = Some (rx_new ext rx_tree (name s)) \<and>
           session_id ch = counter s \<and>
           invoke ext s os m args = (Inr ch, sr)"
proof -
  from invoke_send_known [OF assms, of ext args] obtain h where
    h: "pipe (snd (connect s os)) = Some h" and
    snd: "invoke_send ext s os m args =
       (Inr (Pending (counter s) tx_tree rx_tree),
        (snd (connect s os))
          \<lparr>counter := counter s + 1,
           written := written s @ [(h, msgpack_packb ext (PList [PInt (counter s), method_id, PList args]))]\<rparr>)"
    by blast
  show ?thesis
    using h connect_frame [of s os]
    by (simp add: snd invoke_def session_id_def Let_def)
qed

text \<open>
  C1, witness: \<^verbatim>\<open>echo("x")\<close> on the echo service.
\<close>

theorem write_before_register_witness:
  "fst (connect echo_service []) = Inr () \<and>
   lookup_method (api echo_service) ''echo'' = Some (PInt 1, PMap [], PMap []) \<and>
   (\<exists>sw ch sr.
      invoke_send recorder echo_service [] ''echo'' [PStr ''x''] = (Inr (Pending 1 (PMap []) (PMap [])), sw) \<and>
      written sw = [(7, PList [PInt 1, PInt 1, PList [PStr ''x'']])] \<and>
      sessions sw = [] \<and>
      invoke_register recorder sw (Pending 1 (PMap []) (PMap [])) = (ch, sr) \<and>
      sessions sr = [(1, ch_rx ch)] \<and>
      invoke recorder echo_service [] ''echo'' [PStr ''x''] = (Inr ch, sr))"
proof -
  have c: "fst (connect echo_service []) = Inr ()"
    by (simp add: connect_def connected_def echo_service_def init_def)
  have l: "lookup_method (api echo_service) ''echo'' = Some (PInt 1, PMap [], PMap [])"
    by (simp add: echo_service_def init_def)
  have more: "counter echo_service = 1" "written echo_service = []" "sessions echo_service = []"
    "pipe (snd (connect echo_service [])) = Some 7"
    by (simp_all add: echo_service_def init_def connect_def connected_def)
  from write_before_register [OF c l, of recorder "[PStr ''x'']"] c l more
  show ?thesis by (auto simp: recorder_def)
qed

text \<open>
  C1 as stated fails: when the frame of \<^verbatim>\<open>echo("x")\<close> has been written, session 1 is not in
  the table, and a reply for session 1 read at that point is dropped as an unknown
  session.
\<close>

theorem reply_before_register_dropped:
  "written (snd (invoke_send recorder echo_service [] ''echo'' [PStr ''x''])) =
     [(7, PList [PInt 1, PInt 1, PList [PStr ''x'']])] \<and>
   map_of (sessions (snd (invoke_send recorder echo_service [] ''echo'' [PStr ''x'']))) 1 = None \<and>
   on_read recorder (snd (invoke_send recorder echo_service [] ''echo'' [PStr ''x'']))
     [PList [PInt 1, PInt 0, PStr ''reply'']] =
   (Inr (), snd (invoke_send recorder echo_service [] ''echo'' [PStr ''x'']))"
  by (simp add: invoke_send_def connect_def connected_def echo_service_def init_def Let_def
        recorder_def sessions_get_def)

subsection \<open>disconnect\<close>

text \<open>
  C4. \<^verbatim>\<open>disconnect\<close> on a live stream \<open>h\<close> closes \<open>h\<close>, clears \<open>pipe\<close>, empties the session
  table and calls \<^verbatim>\<open>error(DisconnectionError(name))\<close> once for every entry the table held,
  changing nothing else; when the entries hold distinct receive sides, each of them has
  received exactly that one error and every other object is untouched. With no live
  stream \<^verbatim>\<open>disconnect\<close> returns the state it was given.
\<close>

theorem disconnect_contract:
  "(pipe s = Some h \<longrightarrow>
      disconnect ext s =
        s\<lparr>closed_pipes := closed_pipes s @ [h], pipe := None, sessions := [],
          heap := foldr (\<lambda>kr hp. deliver hp (snd kr)
                           (\<lambda>x. rx_error ext x (DisconnectionError (name s))))
                    (sessions s) (heap s)\<rparr> \<and>
      (distinct (map snd (sessions s)) \<longrightarrow>
         (\<forall>r. heap (disconnect ext s) r =
            (if r \<in> snd ` set (sessions s)
             then map_option (\<lambda>x. rx_error ext x (DisconnectionError (name s))) (heap s r)
             else heap s r)))) \<and>
   (pipe s = None \<longrightarrow> disconnect ext s = s)"
  by (simp add: disconnect_def drain_eq foldr_deliver_apply)

text \<open>
  C4, witness: the service with two open sessions, and a service never connected.
\<close>

theorem disconnect_contract_witness:
  "pipe busy_service = Some 7 \<and> distinct (map snd (sessions busy_service)) \<and>
   length (sessions busy_service) = 2 \<and>
   closed_pipes (disconnect recorder busy_service) = [7] \<and>
   pipe (disconnect recorder busy_service) = None \<and>
   sessions (disconnect recorder busy_service) = [] \<and>
   heap (disconnect recorder busy_service) 0 = Some [Failed (DisconnectionError ''svc'')] \<and>
   heap (disconnect recorder busy_service) 1 =
     Some [Got (PInt 0) (PStr ''a''), Failed (DisconnectionError ''svc'')] \<and>
   pipe (init ''svc'' [(''a'', 1)] :: (rx_event list, pyval) service) = None \<and>
   disconnect recorder (init ''svc'' [(''a'', 1)]) = init ''svc'' [(''a'', 1)]"
proof -
  have p: "pipe busy_service = Some 7" and d: "distinct (map snd (sessions busy_service))"
    and f: "sessions busy_service = [(1, 0), (2, 1)]" "closed_pipes busy_service = []"
      "name busy_service = ''svc''" "heap busy_service 0 = Some []"
      "heap busy_service (Suc 0) = Some [Got (PInt 0) (PStr ''a'')]"
    by (simp_all add: busy_service_def echo_service_def init_def)
  have q: "pipe (init ''svc'' [(''a'', 1)] :: (rx_event list, pyval) service) = None"
    by (simp add: init_def)
  from disconnect_contract [of busy_service 7 recorder] p d
  have live: "disconnect recorder busy_service =
        busy_service\<lparr>closed_pipes := closed_pipes busy_service @ [7], pipe := None, sessions := [],
          heap := foldr (\<lambda>kr hp. deliver hp (snd kr)
                           (\<lambda>x. rx_error recorder x (DisconnectionError (name busy_service))))
                    (sessions busy_service) (heap busy_service)\<rparr>"
    and each: "\<And>r. heap (disconnect recorder busy_service) r =
            (if r \<in> snd ` set (sessions busy_service)
             then map_option (\<lambda>x. rx_error recorder x (DisconnectionError (name busy_service)))
                    (heap busy_service r)
             else heap busy_service r)"
    by blast+
  from disconnect_contract [of "init ''svc'' [(''a'', 1)]" 0 recorder] q
  have idle: "disconnect recorder (init ''svc'' [(''a'', 1)] :: (rx_event list, pyval) service) =
     init ''svc'' [(''a'', 1)]"
    by blast
  have c: "closed_pipes (disconnect recorder busy_service) = [7]"
    "pipe (disconnect recorder busy_service) = None"
    "sessions (disconnect recorder busy_service) = []"
    by (simp_all add: live f)
  have h0: "heap (disconnect recorder busy_service) 0 = Some [Failed (DisconnectionError ''svc'')]"
    and h1: "heap (disconnect recorder busy_service) 1 =
       Some [Got (PInt 0) (PStr ''a''), Failed (DisconnectionError ''svc'')]"
    using each [of 0] each [of 1] by (simp_all add: f recorder_def)
  from p d f(1) q idle c h0 h1 show ?thesis by simp
qed

subsection \<open>Routing of inbound frames\<close>

lemma on_read_append:
  "on_read ext s (xs @ ys) =
     (case on_read ext s xs of
        (Inl err, s1) \<Rightarrow> (Inl err, s1)
      | (Inr u, s1) \<Rightarrow> on_read ext s1 ys)"
  by (induction ext s xs rule: on_read.induct)
     (auto split: sum.splits option.splits prod.splits)

lemma on_read_skip:
  assumes "first3 msg = Inl err \<or>
           (\<exists>session message_type payload.
              first3 msg = Inr (session, message_type, payload) \<and>
              sessions_get (sessions s) session = Inr None)"
  shows "on_read ext s (msg # msgs) = on_read ext s msgs"
  using assms by auto

lemma on_read_deliver:
  assumes "first3 msg = Inr (session, message_type, payload)"
    and "sessions_get (sessions s) session = Inr (Some (k, rx))"
  shows "on_read ext s (msg # msgs) = on_read ext (route ext s k rx message_type payload) msgs"
  using assms by simp

lemma route_frame:
  "pipe (route ext s k rx mt pl) = pipe s \<and>
   counter (route ext s k rx mt pl) = counter s \<and>
   written (route ext s k rx mt pl) = written s \<and>
   api (route ext s k rx mt pl) = api s \<and>
   (sessions s = [] \<longrightarrow> sessions (route ext s k rx mt pl) = [])"
  by (simp add: route_def Let_def)

lemma on_read_frame:
  "pipe (snd (on_read ext s msgs)) = pipe s \<and>
   counter (snd (on_read ext s msgs)) = counter s \<and>
   written (snd (on_read ext s msgs)) = written s \<and>
   api (snd (on_read ext s msgs)) = api s \<and>
   (sessions s = [] \<longrightarrow> sessions (snd (on_read ext s msgs)) = [])"
  by (induction ext s msgs rule: on_read.induct)
     (auto simp: route_frame split: sum.splits option.splits prod.splits)

lemma on_read_dropped:
  assumes "map_of (sessions s) k = None"
    and "\<forall>m \<in> set msgs. \<exists>session message_type payload.
           first3 m = Inr (session, message_type, payload) \<and> dict_key session = Inr (Some k)"
  shows "on_read ext s msgs = (Inr (), s)"
  using assms by (induction msgs) (auto simp: sessions_get_def)

lemma on_read_returns:
  assumes "\<forall>m \<in> set msgs. \<forall>session message_type payload.
             first3 m = Inr (session, message_type, payload) \<longrightarrow>
             (\<exists>k. dict_key session = Inr k)"
  shows "fst (on_read ext s msgs) = Inr ()"
  using assms
  by (induction ext s msgs rule: on_read.induct)
     (auto simp: sessions_get_def split: sum.splits option.splits prod.splits)

text \<open>
  C8. When a frame is delivered to the receive side registered under its session id and
  the receive side reports itself closed after the push, the entry is deleted from the
  table; the frames that follow with the same session id find no entry and are dropped,
  leaving the state as the first frame left it.
\<close>

theorem closed_session_removed:
  assumes "first3 msg = Inr (session, message_type, payload)"
    and "dict_key session = Inr (Some k)"
    and "map_of (sessions s) k = Some rx"
    and "heap s rx = Some x"
    and "rx_closed ext (rx_push ext x message_type payload)"
    and "\<forall>m \<in> set later. \<exists>session' message_type' payload'.
           first3 m = Inr (session', message_type', payload') \<and> dict_key session' = Inr (Some k)"
  shows "on_read ext s (msg # later) =
           (Inr (), s\<lparr>heap := (heap s)(rx \<mapsto> rx_push ext x message_type payload),
                      sessions := AList.delete k (sessions s)\<rparr>) \<and>
         map_of (sessions (snd (on_read ext s (msg # later)))) k = None"
proof -
  let ?s1 = "s\<lparr>heap := (heap s)(rx \<mapsto> rx_push ext x message_type payload),
               sessions := AList.delete k (sessions s)\<rparr>"
  have g: "sessions_get (sessions s) session = Inr (Some (k, rx))"
    using assms(2,3) by (simp add: sessions_get_def)
  have r: "route ext s k rx message_type payload = ?s1"
    using assms(4,5) by (simp add: route_def deliver_def Let_def)
  have gone: "map_of (sessions ?s1) k = None"
    by (simp add: delete_conv')
  have "on_read ext s (msg # later) = on_read ext ?s1 later"
    using on_read_deliver [OF assms(1) g] r by simp
  also have "\<dots> = (Inr (), ?s1)"
    by (rule on_read_dropped [OF gone assms(6)])
  finally show ?thesis using gone by simp
qed

text \<open>
  C8, witness: session 2 of the service with two sessions receives a message of type 1,
  which closes the recording receive side, and then a late frame.
\<close>

theorem closed_session_removed_witness:
  "first3 (PList [PInt 2, PInt 1, PStr ''bye'']) = Inr (PInt 2, PInt 1, PStr ''bye'') \<and>
   dict_key (PInt 2) = Inr (Some 2) \<and>
   map_of (sessions busy_service) 2 = Some 1 \<and>
   heap busy_service 1 = Some [Got (PInt 0) (PStr ''a'')] \<and>
   rx_closed recorder (rx_push recorder [Got (PInt 0) (PStr ''a'')] (PInt 1) (PStr ''bye'')) \<and>
   fst (on_read recorder busy_service
          [PList [PInt 2, PInt 1, PStr ''bye''], PList [PInt 2, PInt 0, PStr ''late'']]) = Inr () \<and>
   sessions (snd (on_read recorder busy_service
          [PList [PInt 2, PInt 1, PStr ''bye''], PList [PInt 2, PInt 0, PStr ''late'']])) = [(1, 0)] \<and>
   heap (snd (on_read recorder busy_service
          [PList [PInt 2, PInt 1, PStr ''bye''], PList [PInt 2, PInt 0, PStr ''late'']])) 1 =
     Some [Got (PInt 0) (PStr ''a''), Got (PInt 1) (PStr ''bye'')]"
proof -
  have a: "first3 (PList [PInt 2, PInt 1, PStr ''bye'']) = Inr (PInt 2, PInt 1, PStr ''bye'')"
    and b: "dict_key (PInt 2) = Inr (Some 2)"
    and c: "map_of (sessions busy_service) 2 = Some 1"
    and d: "heap busy_service 1 = Some [Got (PInt 0) (PStr ''a'')]"
    and e: "rx_closed recorder (rx_push recorder [Got (PInt 0) (PStr ''a'')] (PInt 1) (PStr ''bye''))"
    and f: "\<forall>m \<in> set [PList [PInt 2, PInt 0, PStr ''late'']]. \<exists>session' message_type' payload'.
           first3 m = Inr (session', message_type', payload') \<and> dict_key session' = Inr (Some 2)"
    by (simp_all add: busy_service_def echo_service_def init_def recorder_def)
  have t: "sessions busy_service = [(1, 0), (2, 1)]"
    by (simp add: busy_service_def echo_service_def init_def)
  from closed_session_removed [OF a b c d e f]
  have "on_read recorder busy_service
          [PList [PInt 2, PInt 1, PStr ''bye''], PList [PInt 2, PInt 0, PStr ''late'']] =
        (Inr (), busy_service\<lparr>heap := (heap busy_service)(1 \<mapsto>
             rx_push recorder [Got (PInt 0) (PStr ''a'')] (PInt 1) (PStr ''bye'')),
           sessions := AList.delete 2 (sessions busy_service)\<rparr>)"
    by blast
  then show ?thesis
    using a b c d e by (simp add: t recorder_def)
qed

text \<open>
  C3. The frame \<^verbatim>\<open>[{}, 0, "x"]\<close> has three fields and a session id that is in no table.
  \<^verbatim>\<open>self.sessions.get\<close> raises TypeError on it outside the \<^verbatim>\<open>try\<close>: \<^verbatim>\<open>on_read\<close> ends with
  the exception, and the frame for the open session 1 that follows it in the chunk is not
  delivered, though on its own it is.
\<close>

theorem unhashable_session_raises:
  "first3 (PList [PMap [], PInt 0, PStr ''x'']) = Inr (PMap [], PInt 0, PStr ''x'') \<and>
   map_of (sessions busy_service) 1 = Some 0 \<and>
   on_read recorder busy_service
     [PList [PMap [], PInt 0, PStr ''x''], PList [PInt 1, PInt 0, PStr ''reply'']] =
   (Inl (TypeError ''unhashable type: dict''), busy_service) \<and>
   heap (snd (on_read recorder busy_service [PList [PInt 1, PInt 0, PStr ''reply'']])) 0 =
     Some [Got (PInt 0) (PStr ''reply'')]"
  by (simp add: sessions_get_def busy_service_def echo_service_def init_def route_def
        deliver_def recorder_def Let_def)

subsection \<open>connect when every attempt fails\<close>

lemma join_sublist: "x \<in> set xs \<Longrightarrow> sublist x (join sep xs)"
proof (induction sep xs rule: join.induct)
  case (1 sep)
  then show ?case by simp
next
  case (2 sep y)
  then show ?case by simp
next
  case (3 sep y z zs)
  show ?case
  proof (cases "x = y")
    case True
    then show ?thesis by simp
  next
    case False
    with 3 have "sublist x (join sep (z # zs))" by simp
    then obtain ps ss where "join sep (z # zs) = ps @ x @ ss"
      by (auto simp: sublist_def)
    then have "join sep (y # z # zs) = (y @ sep @ ps) @ x @ ss" by simp
    then show ?thesis unfolding sublist_def by blast
  qed
qed

lemma error_msg_names:
  assumes "map_of errors k = Some c"
  shows "sublist (error_item (k, c)) (error_msg errors)"
proof -
  have "(k, c) \<in> set errors" using assms by (rule map_of_SomeD)
  then have "error_item (k, c) \<in> set (map error_item errors)" by force
  then show ?thesis unfolding error_msg_def by (rule join_sublist)
qed

lemma race_all_refused:
  assumes "\<forall>(i, a) \<in> set os. refused a"
  shows "race s os errors =
     (Inl (PyException (''unable to establish connection: '' @
             error_msg (record_failures (endpoints s) os errors))), s)"
  using assms
  by (induction s os errors rule: race.induct) (simp_all add: refused_def)

lemma record_failures_other:
  assumes "k \<notin> (\<lambda>(i, a). eps ! i) ` set os"
  shows "map_of (record_failures eps os errors) k = map_of errors k"
  using assms
  by (induction eps os errors rule: record_failures.induct) (auto simp: update_conv')

lemma record_failures_some:
  assumes "\<forall>(i, a) \<in> set os. refused a" and "(i, a) \<in> set os"
  shows "\<exists>j e. (j, Refused e) \<in> set os \<and> eps ! j = eps ! i \<and>
           map_of (record_failures eps os errors) (eps ! i) = Some e"
  using assms
proof (induction eps os errors arbitrary: i a rule: record_failures.induct)
  case (1 eps errors)
  then show ?case by simp
next
  case (2 eps i0 h rest errors)
  then show ?case by (simp add: refused_def)
next
  case (3 eps i0 e0 rest errors)
  show ?case
  proof (cases "eps ! i \<in> (\<lambda>(i, a). eps ! i) ` set rest")
    case True
    then obtain i' a' where m: "(i', a') \<in> set rest" and eq: "eps ! i' = eps ! i"
      by auto
    have all: "\<forall>(i, a) \<in> set rest. refused a" using 3(2) by simp
    from 3(1) [OF all m] eq show ?thesis by auto
  next
    case False
    then have "(i, a) \<notin> set rest" by force
    with 3(3) have hd: "i = i0" "a = Refused e0" by auto
    have "map_of (record_failures eps rest (AList.update (eps ! i0) e0 errors)) (eps ! i) = Some e0"
      using record_failures_other [OF False] hd by (simp add: update_conv')
    then show ?thesis using hd by auto
  qed
next
  case (4 eps i0 h e0 rest errors)
  then show ?case by (simp add: refused_def)
qed

lemma record_failures_own:
  assumes "\<forall>(i, a) \<in> set os. refused a"
    and "distinct (map fst os)" and "distinct eps"
    and "\<forall>(i, a) \<in> set os. i < length eps"
    and "(i, Refused e) \<in> set os"
  shows "map_of (record_failures eps os errors) (eps ! i) = Some e"
  using assms
proof (induction eps os errors rule: record_failures.induct)
  case (1 eps errors)
  then show ?case by simp
next
  case (2 eps i0 h rest errors)
  then show ?case by (simp add: refused_def)
next
  case (3 eps i0 e0 rest errors)
  show ?case
  proof (cases "(i, Refused e) \<in> set rest")
    case True
    with 3 show ?thesis by simp
  next
    case False
    with 3(6) have hd: "i = i0" "e = e0" by auto
    have "eps ! i0 \<notin> (\<lambda>(i, a). eps ! i) ` set rest"
    proof
      assume "eps ! i0 \<in> (\<lambda>(i, a). eps ! i) ` set rest"
      then obtain j b where j: "(j, b) \<in> set rest" "eps ! j = eps ! i0" by auto
      from j(1) 3(5) have "j < length eps" "i0 < length eps" by auto
      with j(2) 3(4) have "j = i0" by (simp add: nth_eq_iff_index_eq)
      with j(1) 3(3) show False by force
    qed
    from record_failures_other [OF this] hd show ?thesis by (simp add: update_conv')
  qed
next
  case (4 eps i0 h e0 rest errors)
  then show ?case by (simp add: refused_def)
qed

text \<open>
  When every attempt of the race raises (one attempt at least for every endpoint),
  \<^verbatim>\<open>connect\<close> on a service that is not connected raises a single exception whose message
  is \<^verbatim>\<open>unable to establish connection:\<close> followed by the aggregate, and leaves the state as
  it was. Every endpoint of the list stands in the aggregate as \<^verbatim>\<open>host:port cause\<close>, with
  the cause of an attempt at that endpoint; when the endpoints are pairwise different and
  attempted once each, every attempt's own cause stands there.
\<close>

lemma connect_all_refused:
  assumes "pipe s = None"
    and "\<forall>(i, a) \<in> set os. refused a"
    and "fst ` set os = {..<length (endpoints s)}"
  shows "\<exists>msg.
           connect s os = (Inl (PyException (''unable to establish connection: '' @ msg)), s) \<and>
           (\<forall>i < length (endpoints s). \<exists>j e.
              (j, Refused e) \<in> set os \<and> endpoints s ! j = endpoints s ! i \<and>
              sublist (error_item (endpoints s ! i, e)) msg) \<and>
           (distinct (endpoints s) \<and> distinct (map fst os) \<longrightarrow>
              (\<forall>(i, a) \<in> set os. \<forall>e. a = Refused e \<longrightarrow>
                 sublist (error_item (endpoints s ! i, e)) msg))"
proof -
  let ?E = "record_failures (endpoints s) os []"
  have c: "connect s os =
      (Inl (PyException (''unable to establish connection: '' @ error_msg ?E)), s)"
    using assms(1) race_all_refused [OF assms(2)] by (simp add: connect_def connected_def)
  have every: "\<exists>j e. (j, Refused e) \<in> set os \<and> endpoints s ! j = endpoints s ! i \<and>
              sublist (error_item (endpoints s ! i, e)) (error_msg ?E)"
    if "i < length (endpoints s)" for i
  proof -
    from that assms(3) have "i \<in> fst ` set os" by simp
    then obtain a where "(i, a) \<in> set os" by auto
    from record_failures_some [OF assms(2) this, of "endpoints s" "[]"]
    obtain j e where "(j, Refused e) \<in> set os" "endpoints s ! j = endpoints s ! i"
      "map_of ?E (endpoints s ! i) = Some e" by blast
    then show ?thesis using error_msg_names by blast
  qed
  have own: "sublist (error_item (endpoints s ! i, e)) (error_msg ?E)"
    if "distinct (endpoints s)" "distinct (map fst os)" "(i, Refused e) \<in> set os" for i e
  proof -
    have "\<forall>(i, a) \<in> set os. i < length (endpoints s)" using assms(3) by force
    from record_failures_own [OF assms(2) that(2) that(1) this that(3)]
    show ?thesis by (rule error_msg_names)
  qed
  show ?thesis
    using c every own by blast
qed

text \<open>
  Two endpoints, \<^verbatim>\<open>b\<close> timing out before \<^verbatim>\<open>a\<close> is refused.
\<close>

lemma connect_all_refused_example:
  "pipe (init ''svc'' [(''a'', 1), (''b'', 2)] :: (rx_event list, pyval) service) = None \<and>
   refused (Refused ''timed out'') \<and> refused (Refused ''refused'') \<and>
   (\<exists>msg. connect (init ''svc'' [(''a'', 1), (''b'', 2)] :: (rx_event list, pyval) service)
            [(1, Refused ''timed out''), (0, Refused ''refused'')] =
          (Inl (PyException (''unable to establish connection: '' @ msg)),
           init ''svc'' [(''a'', 1), (''b'', 2)]) \<and>
          sublist ''a:1 refused'' msg \<and> sublist ''b:2 timed out'' msg)"
proof -
  let ?s = "init ''svc'' [(''a'', 1), (''b'', 2)] :: (rx_event list, pyval) service"
  let ?os = "[(1::nat, Refused ''timed out''), (0, Refused ''refused'')]"
  have p: "pipe ?s = None" by (simp add: init_def)
  have r: "\<forall>(i, a) \<in> set ?os. refused a" by (simp add: refused_def)
  have cov: "fst ` set ?os = {..<length (endpoints ?s)}" by (auto simp: init_def)
  have d: "distinct (endpoints ?s) \<and> distinct (map fst ?os)" by (simp add: init_def)
  have i0: "error_item (endpoints ?s ! 0, ''refused'') = ''a:1 refused''"
    and i1: "error_item (endpoints ?s ! 1, ''timed out'') = ''b:2 timed out''"
    by (simp_all add: init_def str_int_def str_nat.simps)
  from connect_all_refused [OF p r cov] d obtain msg where
    c: "connect ?s ?os = (Inl (PyException (''unable to establish connection: '' @ msg)), ?s)"
    and own: "\<forall>(i, a) \<in> set ?os. \<forall>e. a = Refused e \<longrightarrow>
                 sublist (error_item (endpoints ?s ! i, e)) msg"
    by blast
  from own have "sublist (error_item (endpoints ?s ! 0, ''refused'')) msg"
    and "sublist (error_item (endpoints ?s ! 1, ''timed out'')) msg"
    by auto
  then have "sublist ''a:1 refused'' msg" "sublist ''b:2 timed out'' msg"
    by (simp_all only: i0 i1)
  with c p show ?thesis by (auto simp: refused_def)
qed

text \<open>
  C5. Endpoint \<^verbatim>\<open>a\<close> yields stream 7, on which \<^verbatim>\<open>set_nodelay\<close> raises, and endpoint \<^verbatim>\<open>b\<close> is
  refused. Both attempts end in the \<^verbatim>\<open>except\<close> branch and \<^verbatim>\<open>connect\<close> raises the aggregate
  naming both endpoints with their causes; but \<^verbatim>\<open>self.pipe\<close> was assigned before
  \<^verbatim>\<open>set_nodelay\<close> raised and is not cleared: stream 7 is left as the live connection,
  never closed, and the service counts as connected.
\<close>

theorem faulty_attempt_left_live:
  "connect (init ''svc'' [(''a'', 1), (''b'', 2)] :: (rx_event list, pyval) service)
     [(0, Faulty 7 ''nodelay failed''), (1, Refused ''boom'')] =
   (Inl (PyException ''unable to establish connection: a:1 nodelay failed, b:2 boom''),
    (init ''svc'' [(''a'', 1), (''b'', 2)])\<lparr>pipe := Some 7\<rparr>) \<and>
   closed_pipes (snd (connect (init ''svc'' [(''a'', 1), (''b'', 2)] :: (rx_event list, pyval) service)
     [(0, Faulty 7 ''nodelay failed''), (1, Refused ''boom'')])) = [] \<and>
   connected (snd (connect (init ''svc'' [(''a'', 1), (''b'', 2)] :: (rx_event list, pyval) service)
     [(0, Faulty 7 ''nodelay failed''), (1, Refused ''boom'')]))"
  by (simp add: connect_def connected_def init_def error_msg_def str_int_def str_nat.simps)

subsection \<open>Sessions only while a stream is live\<close>

lemma disconnect_frame:
  "counter (disconnect ext s) = counter s \<and> api (disconnect ext s) = api s \<and>
   written (disconnect ext s) = written s \<and>
   (pipe s \<noteq> None \<longrightarrow> sessions (disconnect ext s) = []) \<and>
   (pipe s = None \<longrightarrow> disconnect ext s = s) \<and>
   pipe (disconnect ext s) = None"
  by (simp add: disconnect_def drain_eq split: option.splits)

lemma table_live_init: "table_live (init nm eps)"
  by (simp add: table_live_def init_def)

lemma table_live_connect: "table_live s \<Longrightarrow> table_live (snd (connect s os))"
  using connect_frame [of s os] connect_pipe [of s os]
  by (auto simp: table_live_def)

lemma table_live_disconnect: "table_live s \<Longrightarrow> table_live (disconnect ext s)"
  using disconnect_frame [of ext s] by (cases "pipe s") (auto simp: table_live_def)

lemma table_live_on_read: "table_live s \<Longrightarrow> table_live (snd (on_read ext s msgs))"
  using on_read_frame [of ext s msgs] by (auto simp: table_live_def)

lemma table_live_invoke: "table_live s \<Longrightarrow> table_live (snd (invoke ext s os m args))"
proof (cases "invoke ext s os m args")
  case (Pair r s')
  assume live: "table_live s"
  show ?thesis
  proof (cases r)
    case (Inl err)
    with Pair invoke_failure [of ext s os m args err s'] live show ?thesis
      by (auto simp: table_live_def)
  next
    case (Inr ch)
    with Pair invoke_success [of ext s os m args ch s'] show ?thesis
      by (auto simp: table_live_def)
  qed
qed

lemma table_live_exec: "table_live s \<Longrightarrow> table_live (snd (exec ext s c))"
proof (cases c)
  case (Invoke os m args)
  assume "table_live s"
  then have "table_live (snd (invoke ext s os m args))" by (rule table_live_invoke)
  then show ?thesis using Invoke by (auto split: prod.splits sum.splits)
next
  case (SetApi a)
  assume "table_live s"
  then show ?thesis using SetApi by (simp add: table_live_def)
qed (simp_all add: table_live_connect table_live_disconnect table_live_on_read on_close_def)

lemma table_live_run: "table_live s \<Longrightarrow> table_live (snd (run ext s cs))"
proof (induction cs arbitrary: s)
  case Nil
  then show ?case by simp
next
  case (Cons c cs)
  from Cons.prems have "table_live (snd (exec ext s c))" by (rule table_live_exec)
  then have "table_live (snd (run ext (snd (exec ext s c)) cs))" by (rule Cons.IH)
  then show ?case by (auto split: prod.splits option.splits)
qed

lemma invoke_send_frame:
  "sessions (snd (invoke_send ext s os m args)) = sessions s \<and>
   (pipe s \<noteq> None \<longrightarrow> pipe (snd (invoke_send ext s os m args)) \<noteq> None)"
proof (cases "pipe s")
  case None
  then show ?thesis
    using connect_frame [of s os]
    by (auto simp: invoke_send_def Let_def split: prod.splits sum.splits option.splits)
next
  case (Some h)
  then have "connect s os = (Inr (), s)" by (simp add: connect_live)
  with Some show ?thesis
    by (auto simp: invoke_send_def Let_def split: option.splits)
qed

lemma table_live_invoke_send:
  "table_live s \<Longrightarrow> table_live (snd (invoke_send ext s os m args))"
  using invoke_send_frame [of ext s os m args] by (auto simp: table_live_def)

lemma table_live_invoke_register:
  "table_live (snd (invoke_register ext s p)) = (pipe s \<noteq> None)"
  by (cases p) (simp add: table_live_def Let_def)

lemma table_live_step:
  assumes "table_live (fst cfg)" and "resumes_live ext cfg [ev]"
  shows "table_live (fst (step ext cfg ev))"
proof (cases cfg)
  case (Pair s ps)
  show ?thesis
  proof (cases ev)
    case (Call c)
    with Pair assms(1) table_live_exec [of s ext c] show ?thesis by simp
  next
    case (Start os m args)
    with Pair assms(1) table_live_invoke_send [of s ext os m args] show ?thesis
      by (auto split: prod.splits sum.splits)
  next
    case (Resume i)
    with Pair assms show ?thesis
      by (auto simp: table_live_invoke_register)
  qed
qed

lemma table_live_steps:
  assumes "table_live (fst cfg)" and "resumes_live ext cfg evs"
  shows "table_live (fst (steps ext cfg evs))"
  using assms
proof (induction evs arbitrary: cfg)
  case Nil
  then show ?case by simp
next
  case (Cons ev evs)
  have one: "resumes_live ext cfg [ev]" and rest: "resumes_live ext (step ext cfg ev) evs"
    using Cons.prems(2) by (cases ev; simp)+
  from table_live_step [OF Cons.prems(1) one] have "table_live (fst (step ext cfg ev))" .
  from Cons.IH [OF this rest] show ?case by simp
qed

text \<open>
  C6 (amended). In every state reached from a new service by connect, disconnect,
  on_read, on_close, dispatches and the assignment of the API, where a dispatch may stay
  suspended at its write while other calls run, the session table is non-empty only while
  \<open>pipe\<close> is set, provided no dispatch resumes from its write while \<open>pipe\<close> is cleared.
  Each call run from entry to return preserves this, and so does the part of a dispatch
  up to its write; the part from its resumption to its return leaves the table non-empty,
  and so keeps the invariant exactly when \<open>pipe\<close> is set as it resumes. \<^verbatim>\<open>disconnect\<close> on a
  live stream leaves the table empty and \<open>pipe\<close> cleared.
\<close>

theorem sessions_only_while_live:
  "(resumes_live ext (init nm eps, []) evs \<longrightarrow>
      table_live (fst (steps ext (init nm eps, []) evs))) \<and>
   table_live (snd (run ext (init nm eps) cs)) \<and>
   (table_live s \<longrightarrow> table_live (snd (exec ext s c))) \<and>
   (table_live s \<longrightarrow> table_live (snd (invoke_send ext s os m args))) \<and>
   table_live (snd (invoke_register ext s p)) = (pipe s \<noteq> None) \<and>
   (pipe s \<noteq> None \<longrightarrow>
      sessions (disconnect ext s) = [] \<and> pipe (disconnect ext s) = None \<and>
      table_live (disconnect ext s))"
proof -
  have a: "resumes_live ext (init nm eps, []) evs \<longrightarrow>
      table_live (fst (steps ext (init nm eps, []) evs))"
    by (auto intro: table_live_steps simp: table_live_init)
  have b: "table_live (snd (run ext (init nm eps) cs))"
    by (rule table_live_run [OF table_live_init])
  have c: "table_live s \<longrightarrow> table_live (snd (exec ext s c))"
    by (simp add: table_live_exec)
  have d: "table_live s \<longrightarrow> table_live (snd (invoke_send ext s os m args))"
    by (simp add: table_live_invoke_send)
  have e: "table_live (snd (invoke_register ext s p)) = (pipe s \<noteq> None)"
    by (rule table_live_invoke_register)
  have f: "pipe s \<noteq> None \<longrightarrow>
      sessions (disconnect ext s) = [] \<and> pipe (disconnect ext s) = None \<and>
      table_live (disconnect ext s)"
    using disconnect_frame [of ext s] by (auto simp: table_live_def)
  from a b c d e f show ?thesis by blast
qed

text \<open>
  C6, witness: a dispatch on a new service suspended at its write, a stray frame read
  meanwhile, the dispatch resumed and its reply read; and the calls on the service with
  two sessions open.
\<close>

theorem sessions_only_while_live_witness:
  "resumes_live recorder (init ''svc'' [(''a'', 1)], [])
     [Call (SetApi [(PInt 1, PStr ''echo'', PMap [], PMap [])]),
      Start [(0, Established 7)] ''echo'' [PStr ''x''],
      Call (OnRead [PList [PInt 5, PInt 0, PStr ''stray'']]),
      Resume 0,
      Call (OnRead [PList [PInt 1, PInt 0, PStr ''reply'']])] \<and>
   table_live (fst (steps recorder (init ''svc'' [(''a'', 1)], [])
     [Call (SetApi [(PInt 1, PStr ''echo'', PMap [], PMap [])]),
      Start [(0, Established 7)] ''echo'' [PStr ''x''],
      Call (OnRead [PList [PInt 5, PInt 0, PStr ''stray'']]),
      Resume 0,
      Call (OnRead [PList [PInt 1, PInt 0, PStr ''reply'']])])) \<and>
   sessions (fst (steps recorder (init ''svc'' [(''a'', 1)], [])
     [Call (SetApi [(PInt 1, PStr ''echo'', PMap [], PMap [])]),
      Start [(0, Established 7)] ''echo'' [PStr ''x''],
      Call (OnRead [PList [PInt 5, PInt 0, PStr ''stray'']]),
      Resume 0,
      Call (OnRead [PList [PInt 1, PInt 0, PStr ''reply'']])])) = [(1, 0)] \<and>
   table_live busy_service \<and>
   table_live (snd (exec recorder busy_service Disconnect)) \<and>
   table_live (snd (invoke_send recorder busy_service [] ''echo'' [])) \<and>
   pipe busy_service = Some 7 \<and>
   table_live (snd (invoke_register recorder busy_service (Pending 3 (PMap []) (PMap [])))) \<and>
   sessions (disconnect recorder busy_service) = []"
  (is "resumes_live recorder ?cfg ?evs \<and> _")
proof -
  have g: "resumes_live recorder ?cfg ?evs"
    by (simp add: invoke_send_def connect_def connected_def init_def Let_def sessions_get_def)
  have t: "sessions (fst (steps recorder ?cfg ?evs)) = [(1, 0)]"
    by (simp add: invoke_send_def connect_def connected_def init_def Let_def sessions_get_def
          route_def deliver_def recorder_def)
  have b: "table_live busy_service" and p: "pipe busy_service = Some 7"
    by (simp_all add: table_live_def busy_service_def echo_service_def init_def)
  have pn: "pipe busy_service \<noteq> None" using p by simp
  note th = sessions_only_while_live [of recorder "''svc''" "[(''a'', 1)]" ?evs "[]"
      busy_service Disconnect "[]" "''echo''" "[]" "Pending 3 (PMap []) (PMap [])"]
  from th g have live: "table_live (fst (steps recorder ?cfg ?evs))" by blast
  from th b have ex: "table_live (snd (exec recorder busy_service Disconnect))"
    and sn: "table_live (snd (invoke_send recorder busy_service [] ''echo'' []))"
    by blast+
  from th pn have
    reg: "table_live (snd (invoke_register recorder busy_service (Pending 3 (PMap []) (PMap []))))"
    and dr: "sessions (disconnect recorder busy_service) = []"
    by blast+
  from g live t b ex sn p reg dr show ?thesis by blast
qed

text \<open>
  C6 as stated fails: a dispatch suspended at its write, a \<^verbatim>\<open>disconnect\<close> run meanwhile, and
  the dispatch resumed leave session 1 in the table with \<open>pipe\<close> cleared; a further
  \<^verbatim>\<open>disconnect\<close> returns at once and does not drain it.
\<close>

theorem register_after_disconnect:
  "table_live echo_service \<and>
   fst (invoke_send recorder echo_service [] ''echo'' [PStr ''x'']) =
     Inr (Pending 1 (PMap []) (PMap [])) \<and>
   sessions (snd (invoke_register recorder
      (disconnect recorder (snd (invoke_send recorder echo_service [] ''echo'' [PStr ''x''])))
      (Pending 1 (PMap []) (PMap [])))) = [(1, 0)] \<and>
   pipe (snd (invoke_register recorder
      (disconnect recorder (snd (invoke_send recorder echo_service [] ''echo'' [PStr ''x''])))
      (Pending 1 (PMap []) (PMap [])))) = None \<and>
   \<not> table_live (snd (invoke_register recorder
      (disconnect recorder (snd (invoke_send recorder echo_service [] ''echo'' [PStr ''x''])))
      (Pending 1 (PMap []) (PMap [])))) \<and>
   sessions (disconnect recorder (snd (invoke_register recorder
      (disconnect recorder (snd (invoke_send recorder echo_service [] ''echo'' [PStr ''x''])))
      (Pending 1 (PMap []) (PMap []))))) = [(1, 0)]"
  by (simp add: table_live_def invoke_send_def connect_def connected_def echo_service_def
        init_def Let_def disconnect_def drain_eq)

subsection \<open>Session ids\<close>





end
